theory Spec2Isabelle
  imports Main
begin

section \<open>Python values used by the two scripts\<close>

text \<open>
  A Python \<open>str\<close> is a sequence of Unicode code points, so it is modelled as a list of
  naturals; \<open>lit\<close> turns an ASCII literal into that representation. The non-ASCII
  characters of the source (the clipboard, cross, chart and check-mark signs) are written
  by their code points 128203, 10060, 128202 and 9989.
\<close>

type_synonym pystr = "nat list"

definition lit :: "string \<Rightarrow> pystr" where
  "lit s = map of_char s"

text \<open>
  The exceptions the scripts can meet: the two that the builtin \<open>chr\<close> raises, and any
  exception raised by the client library while a request executes (HTTP error, refused
  credentials, transport failure), kept with its message \<open>str(e)\<close>. All of them are
  subclasses of \<open>Exception\<close>.
\<close>

datatype exn = ValueError | OverflowError | ServiceError pystr

fun exn_str :: "exn \<Rightarrow> pystr" where
  "exn_str ValueError = lit ''chr() arg not in range(0x110000)''"
| "exn_str OverflowError = lit ''Python int too large to convert to C int''"
| "exn_str (ServiceError m) = m"

text \<open>
  The builtin \<open>chr\<close> on a non-negative argument: a one-character string for a code point
  up to 0x10FFFF, \<open>ValueError\<close> beyond it, and in CPython \<open>OverflowError\<close> once the
  argument no longer fits a C int.
\<close>

definition chr :: "nat \<Rightarrow> exn + pystr" where
  "chr n = (if n < 1114112 then Inr [n]
            else if n < 2147483648 then Inl ValueError
            else Inl OverflowError)"

text \<open>\<open>str(n)\<close> for a non-negative integer: its decimal digits.\<close>

fun str_nat :: "nat \<Rightarrow> pystr" where
  "str_nat n = (if n < 10 then [48 + n] else str_nat (n div 10) @ [48 + n mod 10])"

section \<open>The world: console output and remote requests\<close>

text \<open>
  The scripts act on the world in two ways: they print lines and they send read requests
  to the spreadsheet service. Both are recorded, in the order they happen, in one trace.
  A \<open>print\<close> call is one \<open>Print\<close> event carrying the string it was given (\<open>print()\<close>
  carries the empty string); a request is one \<open>Request\<close> event carrying the range string.
\<close>

datatype event = Request pystr | Print pystr

type_synonym world = "event list"

fun is_Request :: "event \<Rightarrow> bool" where
  "is_Request (Request r) = True"
| "is_Request (Print l) = False"

definition ncalls :: "world \<Rightarrow> nat" where
  "ncalls w = length (filter is_Request w)"

definition py_print :: "pystr \<Rightarrow> world \<Rightarrow> world" where
  "py_print s w = w @ [Print s]"

text \<open>
  The answer of the service to \<open>values().get(...).execute()\<close> is a dictionary of which the
  scripts read the key \<open>values\<close> only: a list of rows, each a list of cell strings, or no
  such key at all. The service itself is outside the repository, so it is a parameter:
  \<open>remote k r\<close> is what the service does with the request for range \<open>r\<close> when \<open>k\<close>
  requests were sent before it, either an exception or a response.
\<close>

type_synonym row = "pystr list"

type_synonym response = "row list option"

type_synonym remote = "nat \<Rightarrow> pystr \<Rightarrow> exn + response"

definition execute :: "remote \<Rightarrow> pystr \<Rightarrow> world \<Rightarrow> world \<times> (exn + response)" where
  "execute service range_name w = (w @ [Request range_name], service (ncalls w) range_name)"

text \<open>
  A statement takes the world to a new world and either completes (\<open>None\<close>) or raises
  (\<open>Some e\<close>); what was printed before the exception stays printed. \<open>seq\<close> is sequential
  composition, \<open>for_each\<close> a \<open>for\<close> loop over a list, \<open>try_except\<close> the statement
  \<open>try: ... except Exception as e: ...\<close>.
\<close>

type_synonym outcome = "world \<times> exn option"

definition seq :: "outcome \<Rightarrow> (world \<Rightarrow> outcome) \<Rightarrow> outcome" where
  "seq r f = (case r of (w, None) \<Rightarrow> f w | (w, Some e) \<Rightarrow> (w, Some e))"

fun for_each :: "('a \<Rightarrow> world \<Rightarrow> outcome) \<Rightarrow> 'a list \<Rightarrow> world \<Rightarrow> outcome" where
  "for_each body [] w = (w, None)"
| "for_each body (x # xs) w = seq (body x w) (for_each body xs)"

definition try_except :: "outcome \<Rightarrow> (exn \<Rightarrow> world \<Rightarrow> outcome) \<Rightarrow> outcome" where
  "try_except r handler = (case r of (w, None) \<Rightarrow> (w, None) | (w, Some e) \<Rightarrow> handler e w)"

section \<open>Decoding a row: column index, column letter, cell value\<close>

text \<open>
  Both scripts list a row with the same loop,
  \<^verbatim>\<open>for i, val in enumerate(row): col_letter = chr(65 + i); print(f"  {col_letter} = {val}")\<close>
  (\<^verbatim>\<open>check_headers.py\<close> inlines \<open>chr(65+i)\<close> in the format string). \<open>print_columns i row\<close>
  is that loop started at index \<open>i\<close>.
\<close>

fun print_columns :: "nat \<Rightarrow> row \<Rightarrow> world \<Rightarrow> outcome" where
  "print_columns i [] w = (w, None)"
| "print_columns i (val # vals) w =
     (case chr (65 + i) of
        Inl e \<Rightarrow> (w, Some e)
      | Inr col_letter \<Rightarrow>
          print_columns (Suc i) vals (py_print (lit ''  '' @ col_letter @ lit '' = '' @ val) w))"

text \<open>
  The values the loop binds in each iteration, \<open>(i, col_letter, val)\<close>, are the header
  entries of the row. \<open>decodeHeaders\<close> collects them, and fails where the loop fails.
\<close>

type_synonym HeaderEntry = "nat \<times> pystr \<times> pystr"

fun decode_from :: "nat \<Rightarrow> row \<Rightarrow> exn + HeaderEntry list" where
  "decode_from i [] = Inr []"
| "decode_from i (val # vals) =
     (case chr (65 + i) of
        Inl e \<Rightarrow> Inl e
      | Inr col_letter \<Rightarrow>
          (case decode_from (Suc i) vals of
             Inl e \<Rightarrow> Inl e
           | Inr entries \<Rightarrow> Inr ((i, col_letter, val) # entries)))"

definition decodeHeaders :: "row \<Rightarrow> exn + HeaderEntry list" where
  "decodeHeaders r = decode_from 0 r"

definition entry_line :: "HeaderEntry \<Rightarrow> pystr" where
  "entry_line e = (case e of (i, col_letter, val) \<Rightarrow> lit ''  '' @ col_letter @ lit '' = '' @ val)"

section \<open>check\_headers.py\<close>

text \<open>
  The script after the client has been built. The loop body has no exception handler:
  an exception of the request leaves the loop and ends the script.
\<close>

definition product_sheets :: "pystr list" where
  "product_sheets = [lit ''Gemini'', lit ''ChatGPT'', lit ''YouTube'', lit ''Perplexity'']"

definition first_row :: "response \<Rightarrow> row" where
  "first_row result = (case result of None \<Rightarrow> [] | Some [] \<Rightarrow> [] | Some (r # rs) \<Rightarrow> r)"

definition headers_range :: "pystr \<Rightarrow> pystr" where
  "headers_range sheet = sheet @ lit ''!A2:K2''"

definition headers_sheet :: "remote \<Rightarrow> pystr \<Rightarrow> world \<Rightarrow> outcome" where
  "headers_sheet service sheet w =
     (case execute service (headers_range sheet) w of
        (w1, Inl e) \<Rightarrow> (w1, Some e)
      | (w1, Inr result) \<Rightarrow>
          (let headers = first_row result;
               w2 = py_print (lit ''Sheet: '' @ sheet) w1;
               w3 = py_print (concat (replicate 80 (lit ''-''))) w2
           in seq (print_columns 0 headers w3) (\<lambda>w4. (py_print [] w4, None))))"

definition headers_loop :: "remote \<Rightarrow> pystr list \<Rightarrow> world \<Rightarrow> outcome" where
  "headers_loop service sheets w = for_each (headers_sheet service) sheets w"

definition headers_banner :: "world \<Rightarrow> world" where
  "headers_banner w =
     py_print []
       (py_print (concat (replicate 80 (lit ''='')))
          (py_print (lit ''STRUKTUR AKTUAL SEMUA PRODUCT SHEETS'')
             (py_print (concat (replicate 80 (lit ''=''))) w)))"

definition check_headers :: "remote \<Rightarrow> outcome" where
  "check_headers service = headers_loop service product_sheets (headers_banner [])"

section \<open>check\_sheet\_structure.py\<close>

definition sheets_to_check :: "pystr list" where
  "sheets_to_check = [lit ''Gemini'', lit ''ChatGPT'', lit ''YouTube'', lit ''Perplexity'']"

definition audit_range :: "pystr \<Rightarrow> pystr" where
  "audit_range sheet_name = [39] @ sheet_name @ [39] @ lit ''!A1:Z2''"

definition get_values :: "response \<Rightarrow> row list" where
  "get_values result = (case result of None \<Rightarrow> [] | Some rs \<Rightarrow> rs)"

text \<open>The body of the \<open>try\<close> of the first loop.\<close>

definition audit_try :: "remote \<Rightarrow> pystr \<Rightarrow> world \<Rightarrow> outcome" where
  "audit_try service sheet_name w =
     (case execute service (audit_range sheet_name) w of
        (w1, Inl e) \<Rightarrow> (w1, Some e)
      | (w1, Inr result) \<Rightarrow>
          (let rows = get_values result;
               w2 = py_print ([128203] @ lit '' Sheet: '' @ sheet_name) w1;
               w3 = py_print (concat (replicate 80 (lit ''-''))) w2
           in seq (if length rows \<ge> 1
                   then print_columns 0 (if length (rows ! 0) > 0 then rows ! 0 else [])
                          (py_print (lit ''ROW 1 (Title/Label?):'') w3)
                   else (w3, None))
                (\<lambda>w4. seq (if length rows \<ge> 2
                             then print_columns 0 (if length (rows ! 1) > 0 then rows ! 1 else [])
                                    (py_print ([10] @ lit ''ROW 2 (Header?):'') w4)
                             else (w4, None))
                   (\<lambda>w5. (py_print [] w5, None)))))"

definition report_error :: "pystr \<Rightarrow> exn \<Rightarrow> world \<Rightarrow> outcome" where
  "report_error sheet_name e w =
     (py_print []
        (py_print ([10060] @ lit '' Error reading '' @ sheet_name @ lit '': '' @ exn_str e) w),
      None)"

definition audit_sheet :: "remote \<Rightarrow> pystr \<Rightarrow> world \<Rightarrow> outcome" where
  "audit_sheet service sheet_name w =
     try_except (audit_try service sheet_name w) (report_error sheet_name)"

definition audit_loop :: "remote \<Rightarrow> pystr list \<Rightarrow> world \<Rightarrow> outcome" where
  "audit_loop service sheets w = for_each (audit_sheet service) sheets w"

text \<open>
  The second loop prints rows with the builtin \<open>repr\<close> of a list of strings, which is
  taken as a parameter \<open>repr_row\<close>.
\<close>

definition sample_range :: "pystr \<Rightarrow> pystr" where
  "sample_range sheet_name = [39] @ sheet_name @ [39] @ lit ''!A1:J4''"

definition print_data_row :: "(row \<Rightarrow> pystr) \<Rightarrow> nat \<times> row \<Rightarrow> world \<Rightarrow> outcome" where
  "print_data_row repr_row p w =
     (case p of (idx, r) \<Rightarrow>
        (py_print (lit ''Row '' @ str_nat idx @ lit '' (Data):   '' @ repr_row r) w, None))"

definition sample_try :: "(row \<Rightarrow> pystr) \<Rightarrow> remote \<Rightarrow> pystr \<Rightarrow> world \<Rightarrow> outcome" where
  "sample_try repr_row service sheet_name w =
     (case execute service (sample_range sheet_name) w of
        (w1, Inl e) \<Rightarrow> (w1, Some e)
      | (w1, Inr result) \<Rightarrow>
          (let rows = get_values result;
               w2 = py_print ([128202] @ lit '' Sheet: '' @ sheet_name @ lit '' - Data Sample'') w1;
               w3 = py_print (concat (replicate 80 (lit ''-''))) w2
           in seq (if rows \<noteq> []
                   then for_each (print_data_row repr_row)
                          (List.enumerate 2 (take 3 (drop 1 rows)))
                          (py_print (lit ''Row 1 (Header): '' @ repr_row (rows ! 0)) w3)
                   else (py_print (lit ''  (No data)'') w3, None))
                (\<lambda>w4. (py_print [] w4, None))))"

definition sample_sheet :: "(row \<Rightarrow> pystr) \<Rightarrow> remote \<Rightarrow> pystr \<Rightarrow> world \<Rightarrow> outcome" where
  "sample_sheet repr_row service sheet_name w =
     try_except (sample_try repr_row service sheet_name w) (report_error sheet_name)"

definition sample_loop :: "(row \<Rightarrow> pystr) \<Rightarrow> remote \<Rightarrow> pystr list \<Rightarrow> world \<Rightarrow> outcome" where
  "sample_loop repr_row service sheets w = for_each (sample_sheet repr_row service) sheets w"

definition audit_banner :: "world \<Rightarrow> world" where
  "audit_banner w =
     py_print []
       (py_print (concat (replicate 80 (lit ''='')))
          (py_print (lit ''STRUKTUR HEADER GOOGLE SHEETS - AUDIT'')
             (py_print (concat (replicate 80 (lit ''=''))) w)))"

definition sample_banner :: "world \<Rightarrow> world" where
  "sample_banner w =
     py_print []
       (py_print (concat (replicate 80 (lit ''='')))
          (py_print (lit ''CHECKING DATA SAMPLES (First 3 rows)'')
             (py_print (concat (replicate 80 (lit ''=''))) w)))"

definition check_sheet_structure :: "(row \<Rightarrow> pystr) \<Rightarrow> remote \<Rightarrow> outcome" where
  "check_sheet_structure repr_row service =
     seq (audit_loop service sheets_to_check (audit_banner []))
       (\<lambda>w. seq (sample_loop repr_row service sheets_to_check (sample_banner w))
          (\<lambda>w. (py_print ([9989] @ lit '' Done!'') w, None)))"

section \<open>Notions used to state the properties\<close>

text \<open>The three components of a header entry.\<close>

fun entry_index :: "HeaderEntry \<Rightarrow> nat" where
  "entry_index (i, col_letter, val) = i"

fun entry_letter :: "HeaderEntry \<Rightarrow> pystr" where
  "entry_letter (i, col_letter, val) = col_letter"

fun entry_value :: "HeaderEntry \<Rightarrow> pystr" where
  "entry_value (i, col_letter, val) = val"


text \<open>
  The service as it is seen from the \<open>k\<close>-th request on, and the events that one pass of
  each loop body adds to the trace when \<open>k\<close> requests were sent before it.
\<close>

definition shifted :: "remote \<Rightarrow> nat \<Rightarrow> remote" where
  "shifted service k = (\<lambda>j. service (k + j))"

definition audit_block :: "remote \<Rightarrow> nat \<Rightarrow> pystr \<Rightarrow> event list" where
  "audit_block service k sheet_name = fst (audit_sheet (shifted service k) sheet_name [])"

definition headers_block :: "remote \<Rightarrow> nat \<Rightarrow> pystr \<Rightarrow> event list" where
  "headers_block service k sheet = fst (headers_sheet (shifted service k) sheet [])"

text \<open>
  A spreadsheet in which the sheet \<open>ChatGPT\<close> cannot be read: the request for it raises,
  every other request returns one row of two cells.
\<close>

definition without_ChatGPT :: remote where
  "without_ChatGPT k range_name =
     (if range_name = headers_range (lit ''ChatGPT'')
         \<or> range_name = audit_range (lit ''ChatGPT'')
         \<or> range_name = sample_range (lit ''ChatGPT'')
      then Inl (ServiceError (lit ''HttpError 400''))
      else Inr (Some [[lit ''Email'', lit ''Status'']]))"

section \<open>The builtin and the decoding loop\<close>

lemma chr_in_range: "n < 1114112 \<Longrightarrow> chr n = Inr [n]"
  by (simp add: chr_def)

lemma chr_Inr_iff: "chr n = Inr s \<longleftrightarrow> n < 1114112 \<and> s = [n]"
  by (auto simp: chr_def)

lemma decode_from_ok:
  "65 + i + length r \<le> 1114112 \<Longrightarrow>
   decode_from i r = Inr (map (\<lambda>(k, v). (k, [65 + k], v)) (List.enumerate i r))"
  by (induction r arbitrary: i) (simp_all add: chr_in_range)

lemma decode_from_Inr:
  "decode_from i r = Inr es \<Longrightarrow> es = map (\<lambda>(k, v). (k, [65 + k], v)) (List.enumerate i r)"
  by (induction r arbitrary: i es) (auto simp: chr_Inr_iff split: sum.splits)


lemma decode_from_Inr_bound:
  "decode_from i r = Inr es \<Longrightarrow> r = [] \<or> 65 + i + length r \<le> 1114112"
proof (induction r arbitrary: i es)
  case Nil
  then show ?case by simp
next
  case (Cons v vs)
  from Cons.prems obtain es' where c: "65 + i < 1114112" and d: "decode_from (Suc i) vs = Inr es'"
    by (auto simp: chr_Inr_iff split: sum.splits)
  from Cons.IH [OF d] c show ?case by auto
qed

lemma decoded_nth:
  assumes "decodeHeaders r = Inr es" and "i < length r"
  shows "es ! i = (i, [65 + i], r ! i)"
  using assms decode_from_Inr [of 0 r es]
  by (simp add: decodeHeaders_def nth_enumerate_eq)

lemma decoded_length: "decodeHeaders r = Inr es \<Longrightarrow> length es = length r"
  using decode_from_Inr [of 0 r es] by (simp add: decodeHeaders_def)

lemma decoded_short: "length r \<le> 1114047 \<Longrightarrow> \<exists>es. decodeHeaders r = Inr es"
  by (simp add: decodeHeaders_def decode_from_ok)

lemma alphabet_nth:
  "\<forall>i<26. [65 + i] = lit [''ABCDEFGHIJKLMNOPQRSTUVWXYZ'' ! i]"
  by (simp add: lit_def eval_nat_numeral All_less_Suc)

lemma scenario_decoded:
  "decodeHeaders [lit ''Name'', lit ''Date'', lit [], lit ''Status''] =
     Inr [(0, lit ''A'', lit ''Name''), (1, lit ''B'', lit ''Date''),
          (2, lit ''C'', lit []), (3, lit ''D'', lit ''Status'')]"
  by (simp add: decodeHeaders_def chr_def lit_def)

text \<open>
  The loop of the scripts prints the decoded entries, one line each, and it prints the
  same events whatever was printed before.
\<close>

lemma print_columns_decoded:
  "decode_from i r = Inr es \<Longrightarrow>
   print_columns i r w = (w @ map (\<lambda>e. Print (entry_line e)) es, None)"
  by (induction r arbitrary: i es w)
     (auto simp: chr_def py_print_def entry_line_def split: sum.splits if_splits)

lemma print_columns_raises:
  "decode_from i r = Inl e \<Longrightarrow> snd (print_columns i r w) = Some e"
  by (induction r arbitrary: i w) (auto split: sum.splits)

lemma print_columns_frame:
  "print_columns i r w = (w @ fst (print_columns i r []), snd (print_columns i r []))"
proof (induction r arbitrary: i w)
  case Nil
  then show ?case by simp
next
  case (Cons v vs)
  show ?case
  proof (cases "chr (65 + i)")
    case (Inl e)
    then show ?thesis by simp
  next
    case (Inr l)
    then show ?thesis
      using Cons.IH [of "Suc i" "py_print (lit ''  '' @ l @ lit '' = '' @ v) w"]
            Cons.IH [of "Suc i" "py_print (lit ''  '' @ l @ lit '' = '' @ v) []"]
      by (simp add: py_print_def)
  qed
qed

lemma print_columns_no_request:
  "filter is_Request (fst (print_columns i r w)) = filter is_Request w"
proof (induction r arbitrary: i w)
  case Nil
  then show ?case by simp
next
  case (Cons v vs)
  then show ?case
    by (cases "chr (65 + i)") (simp_all add: py_print_def)
qed


section \<open>Properties of the decoding\<close>

text \<open>
  C3. For a column index from 0 to 25 the decoded entry carries the letter
  \<open>chr(65 + index)\<close>, which is the letter of that position in the alphabet (0 gives A,
  1 gives B, and so on), and two different indices of that range carry different letters.
\<close>

theorem decodeHeaders_letter:
  assumes "decodeHeaders r = Inr es" and "i < length r" and "i \<le> 25"
    and "j < length r" and "j \<le> 25"
  shows "chr (65 + i) = Inr (entry_letter (es ! i)) \<and>
         entry_letter (es ! i) = lit [''ABCDEFGHIJKLMNOPQRSTUVWXYZ'' ! i] \<and>
         (i \<noteq> j \<longrightarrow> entry_letter (es ! i) \<noteq> entry_letter (es ! j))"
proof -
  have li: "entry_letter (es ! i) = [65 + i]"
    using assms(1,2) by (simp add: decoded_nth)
  have lj: "entry_letter (es ! j) = [65 + j]"
    using assms(1,4) by (simp add: decoded_nth)
  from assms(3) have "i < 26" by simp
  then have "[65 + i] = lit [''ABCDEFGHIJKLMNOPQRSTUVWXYZ'' ! i]"
    using alphabet_nth by blast
  with li have "entry_letter (es ! i) = lit [''ABCDEFGHIJKLMNOPQRSTUVWXYZ'' ! i]"
    by simp
  moreover have "chr (65 + i) = Inr (entry_letter (es ! i))"
    using assms(3) li by (simp add: chr_in_range)
  moreover have "i \<noteq> j \<longrightarrow> entry_letter (es ! i) \<noteq> entry_letter (es ! j)"
    using li lj by simp
  ultimately show ?thesis by blast
qed

theorem decodeHeaders_letter_witness:
  "decodeHeaders [lit ''Name'', lit ''Date'', lit [], lit ''Status''] =
     Inr [(0, lit ''A'', lit ''Name''), (1, lit ''B'', lit ''Date''),
          (2, lit ''C'', lit []), (3, lit ''D'', lit ''Status'')] \<and>
   chr (65 + 1) = Inr (lit ''B'') \<and> lit ''B'' \<noteq> lit ''D''"
proof -
  have "(1::nat) < length [lit ''Name'', lit ''Date'', lit [], lit ''Status'']"
    and "(1::nat) \<le> 25"
    and "(3::nat) < length [lit ''Name'', lit ''Date'', lit [], lit ''Status'']"
    and "(3::nat) \<le> 25"
    by simp_all
  from decodeHeaders_letter [OF scenario_decoded this]
  show ?thesis
    using scenario_decoded by simp
qed

text \<open>
  C5. The row \<open>["Name", "Date", "", "Status"]\<close> decodes to the four entries
  \<open>(0, A, Name)\<close>, \<open>(1, B, Date)\<close>, \<open>(2, C, "")\<close>, \<open>(3, D, Status)\<close>: the empty cell
  in the middle keeps its place and its own entry, and the loop prints one line for it.
\<close>

theorem decodeHeaders_scenario:
  "decodeHeaders [lit ''Name'', lit ''Date'', lit [], lit ''Status''] =
     Inr [(0, lit ''A'', lit ''Name''), (1, lit ''B'', lit ''Date''),
          (2, lit ''C'', lit []), (3, lit ''D'', lit ''Status'')] \<and>
   print_columns 0 [lit ''Name'', lit ''Date'', lit [], lit ''Status''] [] =
     ([Print (lit ''  A = Name''), Print (lit ''  B = Date''),
       Print (lit ''  C = ''), Print (lit ''  D = Status'')], None)"
  by (simp add: decodeHeaders_def chr_def lit_def py_print_def)

text \<open>
  C6. The letter of a cell depends on its position only: in the decodings of any two
  rows (of whatever sheets, with whatever cell values) the entries at the same position
  carry the same letter, namely \<open>chr(65 + position)\<close>.
\<close>

theorem letter_depends_on_position_only:
  assumes "decodeHeaders r1 = Inr es1" and "decodeHeaders r2 = Inr es2"
    and "i < length r1" and "i < length r2"
  shows "entry_letter (es1 ! i) = entry_letter (es2 ! i) \<and>
         chr (65 + i) = Inr (entry_letter (es1 ! i))"
proof -
  have l1: "entry_letter (es1 ! i) = [65 + i]"
    using assms(1,3) by (simp add: decoded_nth)
  have l2: "entry_letter (es2 ! i) = [65 + i]"
    using assms(2,4) by (simp add: decoded_nth)
  from assms(3) have "r1 \<noteq> []" by auto
  with assms(1) decode_from_Inr_bound [of 0 r1 es1] have "65 + length r1 \<le> 1114112"
    by (simp add: decodeHeaders_def)
  with assms(3) have "chr (65 + i) = Inr [65 + i]"
    by (simp add: chr_in_range)
  with l1 l2 show ?thesis by simp
qed

theorem letter_depends_on_position_only_witness:
  "decodeHeaders [lit ''Name'', lit ''Date''] = Inr [(0, lit ''A'', lit ''Name''), (1, lit ''B'', lit ''Date'')] \<and>
   decodeHeaders [lit ''Email'', lit ''Status'', lit ''Note''] =
     Inr [(0, lit ''A'', lit ''Email''), (1, lit ''B'', lit ''Status''), (2, lit ''C'', lit ''Note'')] \<and>
   chr (65 + 1) = Inr (lit ''B'')"
proof -
  have d1: "decodeHeaders [lit ''Name'', lit ''Date''] =
              Inr [(0, lit ''A'', lit ''Name''), (1, lit ''B'', lit ''Date'')]"
    by (simp add: decodeHeaders_def chr_def lit_def)
  have d2: "decodeHeaders [lit ''Email'', lit ''Status'', lit ''Note''] =
              Inr [(0, lit ''A'', lit ''Email''), (1, lit ''B'', lit ''Status''),
                   (2, lit ''C'', lit ''Note'')]"
    by (simp add: decodeHeaders_def chr_def lit_def)
  have "(1::nat) < length [lit ''Name'', lit ''Date'']"
    and "(1::nat) < length [lit ''Email'', lit ''Status'', lit ''Note'']"
    by simp_all
  from letter_depends_on_position_only [OF d1 d2 this]
  show ?thesis
    using d1 d2 by simp
qed

text \<open>
  C8. Decoding the same row again gives the same output: the events that the loop adds
  to the trace, and the way it ends, are the same in any two worlds it is started in, and
  what was in the trace before stays as it was. The output is fixed by the decoding of
  the row alone: the loop prints the lines of the decoded entries, or ends with the
  exception the decoding ends with.
\<close>

theorem print_columns_repeatable:
  "drop (length w1) (fst (print_columns 0 r w1)) = drop (length w2) (fst (print_columns 0 r w2)) \<and>
   take (length w1) (fst (print_columns 0 r w1)) = w1 \<and>
   snd (print_columns 0 r w1) = snd (print_columns 0 r w2) \<and>
   fst (print_columns 0 r (fst (print_columns 0 r w1))) =
     w1 @ fst (print_columns 0 r []) @ fst (print_columns 0 r []) \<and>
   (case decodeHeaders r of
      Inr es \<Rightarrow> print_columns 0 r w1 = (w1 @ map (\<lambda>e. Print (entry_line e)) es, None)
    | Inl e \<Rightarrow> snd (print_columns 0 r w1) = Some e)"
proof -
  have f1: "print_columns 0 r w1 = (w1 @ fst (print_columns 0 r []), snd (print_columns 0 r []))"
    by (rule print_columns_frame)
  have f2: "print_columns 0 r w2 = (w2 @ fst (print_columns 0 r []), snd (print_columns 0 r []))"
    by (rule print_columns_frame)
  have f3: "print_columns 0 r (w1 @ fst (print_columns 0 r [])) =
              ((w1 @ fst (print_columns 0 r [])) @ fst (print_columns 0 r []),
               snd (print_columns 0 r []))"
    by (rule print_columns_frame)
  have f4: "(case decodeHeaders r of
      Inr es \<Rightarrow> print_columns 0 r w1 = (w1 @ map (\<lambda>e. Print (entry_line e)) es, None)
    | Inl e \<Rightarrow> snd (print_columns 0 r w1) = Some e)"
    by (cases "decodeHeaders r")
       (simp_all add: decodeHeaders_def print_columns_raises print_columns_decoded)
  have "drop (length w1) (fst (print_columns 0 r w1)) =
          drop (length w2) (fst (print_columns 0 r w2))"
    by (simp add: f1 f2)
  moreover have "take (length w1) (fst (print_columns 0 r w1)) = w1"
    by (simp add: f1)
  moreover have "snd (print_columns 0 r w1) = snd (print_columns 0 r w2)"
    by (simp add: f1 f2)
  moreover have "fst (print_columns 0 r (fst (print_columns 0 r w1))) =
     w1 @ fst (print_columns 0 r []) @ fst (print_columns 0 r [])"
    by (simp add: f1 f3)
  ultimately show ?thesis
    using f4 by (intro conjI)
qed

text \<open>
  C10. In a decoded listing the entry at position \<open>i\<close> carries index \<open>i\<close>: the indices
  are \<open>0, 1, 2, ...\<close>, there is one entry for each cell of the row, and the values of the
  entries are the cells of the row in their order.
\<close>

theorem decoded_indices_and_values:
  assumes "decodeHeaders r = Inr es"
  shows "map entry_index es = [0..<length r] \<and> map entry_value es = r \<and>
         length es = length r"
proof -
  have es: "es = map (\<lambda>(k, v). (k, [65 + k], v)) (List.enumerate 0 r)"
    using assms decode_from_Inr [of 0 r es] by (simp add: decodeHeaders_def)
  have "entry_index \<circ> (\<lambda>(k, v). (k, [65 + k], v)) = fst"
    by (rule ext) (simp add: case_prod_beta)
  then have "map entry_index es = map fst (List.enumerate 0 r)"
    unfolding es by simp
  moreover have "entry_value \<circ> (\<lambda>(k, v). (k, [65 + k], v)) = snd"
    by (rule ext) (simp add: case_prod_beta)
  then have "map entry_value es = map snd (List.enumerate 0 r)"
    unfolding es by simp
  ultimately show ?thesis
    using es by simp
qed

theorem decoded_indices_and_values_witness:
  "decodeHeaders [lit ''Name'', lit ''Date'', lit [], lit ''Status''] =
     Inr [(0, lit ''A'', lit ''Name''), (1, lit ''B'', lit ''Date''),
          (2, lit ''C'', lit []), (3, lit ''D'', lit ''Status'')] \<and>
   map entry_index [(0, lit ''A'', lit ''Name''), (1, lit ''B'', lit ''Date''),
                    (2, lit ''C'', lit []), (3, lit ''D'', lit ''Status'')] = [0, 1, 2, 3] \<and>
   map entry_value [(0, lit ''A'', lit ''Name''), (1, lit ''B'', lit ''Date''),
                    (2, lit ''C'', lit []), (3, lit ''D'', lit ''Status'')] =
     [lit ''Name'', lit ''Date'', lit [], lit ''Status'']"
  using decoded_indices_and_values [OF scenario_decoded] scenario_decoded
  by (simp add: upt_rec)


section \<open>Rows the decoding cannot list\<close>









section \<open>One pass of a loop body\<close>

lemma ncalls_append: "ncalls (w @ t) = ncalls w + ncalls t"
  by (simp add: ncalls_def)

lemma print_columns_append:
  "print_columns i r (w @ t) = (w @ fst (print_columns i r t), snd (print_columns i r t))"
  using print_columns_frame [of i r "w @ t"] print_columns_frame [of i r t]
  by simp

lemma print_columns_Cons:
  "print_columns i r (x # t) = (x # fst (print_columns i r t), snd (print_columns i r t))"
  using print_columns_append [of i r "[x]" t] by simp

lemma print_columns_prints:
  "filter is_Request (fst (print_columns i r [])) = []"
  using print_columns_no_request [of i r "[]"] by simp

lemmas body_simps =
  execute_def Let_def seq_def py_print_def shifted_def ncalls_def
  print_columns_append print_columns_Cons print_columns_prints

text \<open>
  A pass of the body of the first loop of \<^verbatim>\<open>check_sheet_structure.py\<close> adds its events
  behind the trace, and what it adds depends on the trace only through the number of
  requests sent so far. The handler catches whatever the \<open>try\<close> block raises.
\<close>

lemma audit_try_frame:
  "audit_try service s w =
     (w @ fst (audit_try (shifted service (ncalls w)) s []),
      snd (audit_try (shifted service (ncalls w)) s []))"
  by (cases "service (ncalls w) (audit_range s)")
     (simp_all add: audit_try_def body_simps split: option.splits)

lemma audit_sheet_block:
  "audit_sheet service s w = (w @ audit_block service (ncalls w) s, None)"
proof -
  obtain t x where r: "audit_try (shifted service (ncalls w)) s [] = (t, x)"
    by (cases "audit_try (shifted service (ncalls w)) s []") blast
  then have "audit_try service s w = (w @ t, x)"
    using audit_try_frame [of service s w] by simp
  with r show ?thesis
    by (cases x)
       (simp_all add: audit_sheet_def audit_block_def try_except_def report_error_def
          py_print_def)
qed

lemma audit_try_requests:
  "filter is_Request (fst (audit_try service s [])) = [Request (audit_range s)]"
  by (cases "service 0 (audit_range s)")
     (simp_all add: audit_try_def body_simps split: option.splits)

lemma audit_block_requests:
  "filter is_Request (audit_block service k s) = [Request (audit_range s)]"
proof -
  obtain t x where r: "audit_try (shifted service k) s [] = (t, x)"
    by (cases "audit_try (shifted service k) s []") blast
  with audit_try_requests [of "shifted service k" s]
  have "filter is_Request t = [Request (audit_range s)]" by simp
  with r show ?thesis
    by (cases x)
       (simp_all add: audit_sheet_def audit_block_def try_except_def report_error_def
          py_print_def)
qed

lemma audit_block_shape:
  "(case service k (audit_range s) of
      Inl e \<Rightarrow>
        audit_block service k s =
          [Request (audit_range s),
           Print ([10060] @ lit '' Error reading '' @ s @ lit '': '' @ exn_str e),
           Print []]
    | Inr result \<Rightarrow>
        take 2 (audit_block service k s) =
          [Request (audit_range s), Print ([128203] @ lit '' Sheet: '' @ s)])"
  by (cases "service k (audit_range s)")
     (simp_all add: audit_block_def audit_sheet_def try_except_def report_error_def
        audit_try_def body_simps split: option.splits)

text \<open>The same for the body of the loop of \<^verbatim>\<open>check_headers.py\<close>, which has no handler.\<close>

lemma headers_sheet_frame:
  "headers_sheet service s w =
     (w @ headers_block service (ncalls w) s,
      snd (headers_sheet (shifted service (ncalls w)) s []))"
  by (cases "service (ncalls w) (headers_range s)")
     (simp_all add: headers_sheet_def headers_block_def body_simps split: option.splits)

lemma headers_block_requests:
  "filter is_Request (headers_block service k s) = [Request (headers_range s)]"
  by (cases "service k (headers_range s)")
     (simp_all add: headers_sheet_def headers_block_def body_simps split: option.splits)

lemma headers_block_shape:
  "(case service k (headers_range s) of
      Inl e \<Rightarrow> headers_block service k s = [Request (headers_range s)]
    | Inr result \<Rightarrow>
        take 2 (headers_block service k s) =
          [Request (headers_range s), Print (lit ''Sheet: '' @ s)])"
  by (cases "service k (headers_range s)")
     (simp_all add: headers_sheet_def headers_block_def body_simps split: option.splits)

section \<open>The loops over the sheets\<close>

lemma audit_loop_blocks:
  "audit_loop service sheets w =
     (w @ concat (map (\<lambda>(k, s). audit_block service k s)
                    (List.enumerate (ncalls w) sheets)), None)"
proof (induction sheets arbitrary: w)
  case Nil
  show ?case by (simp add: audit_loop_def)
next
  case (Cons s ss)
  have n: "ncalls (w @ audit_block service (ncalls w) s) = Suc (ncalls w)"
    by (simp add: ncalls_def audit_block_requests)
  from Cons.IH [of "w @ audit_block service (ncalls w) s"]
  show ?case
    by (simp add: audit_loop_def audit_sheet_block seq_def n)
qed

lemma audit_loop_requests:
  "filter is_Request (fst (audit_loop service sheets w)) =
     filter is_Request w @ map (\<lambda>s. Request (audit_range s)) sheets"
proof (induction sheets arbitrary: w)
  case Nil
  show ?case by (simp add: audit_loop_def)
next
  case (Cons s ss)
  from Cons.IH [of "w @ audit_block service (ncalls w) s"]
  show ?case
    by (simp add: audit_loop_def audit_sheet_block seq_def audit_block_requests)
qed

lemma audit_loop_completes: "snd (audit_loop service sheets w) = None"
  by (simp add: audit_loop_blocks)

lemma audit_sheet_reports_failure:
  "service (ncalls w) (audit_range s) = Inl e \<Longrightarrow>
   audit_sheet service s w =
     (w @ [Request (audit_range s),
           Print ([10060] @ lit '' Error reading '' @ s @ lit '': '' @ exn_str e),
           Print []], None)"
  using audit_block_shape [of service "ncalls w" s]
  by (simp add: audit_sheet_block)

lemma headers_loop_blocks:
  "\<exists>n\<le>length sheets.
     fst (headers_loop service sheets w) =
       w @ concat (map (\<lambda>(k, s). headers_block service k s)
                     (List.enumerate (ncalls w) (take n sheets))) \<and>
     (snd (headers_loop service sheets w) = None \<longrightarrow> n = length sheets)"
proof (induction sheets arbitrary: w)
  case Nil
  show ?case by (simp add: headers_loop_def)
next
  case (Cons s ss)
  let ?B = "headers_block service (ncalls w) s"
  show ?case
  proof (cases "snd (headers_sheet (shifted service (ncalls w)) s [])")
    case (Some e)
    then have "headers_loop service (s # ss) w = (w @ ?B, Some e)"
      using headers_sheet_frame [of service s w]
      by (simp add: headers_loop_def seq_def)
    then have "fst (headers_loop service (s # ss) w) =
        w @ concat (map (\<lambda>(k, s). headers_block service k s)
                     (List.enumerate (ncalls w) (take 1 (s # ss)))) \<and>
        (snd (headers_loop service (s # ss) w) = None \<longrightarrow> 1 = length (s # ss))"
      by simp
    moreover have "1 \<le> length (s # ss)" by simp
    ultimately show ?thesis by (intro exI [of _ 1]) simp
  next
    case None
    then have step: "headers_loop service (s # ss) w = headers_loop service ss (w @ ?B)"
      using headers_sheet_frame [of service s w]
      by (simp add: headers_loop_def seq_def)
    have n: "ncalls (w @ ?B) = Suc (ncalls w)"
      by (simp add: ncalls_def headers_block_requests)
    from Cons.IH [of "w @ ?B"] obtain m where m: "m \<le> length ss"
      and t: "fst (headers_loop service ss (w @ ?B)) =
        (w @ ?B) @ concat (map (\<lambda>(k, s). headers_block service k s)
                     (List.enumerate (ncalls (w @ ?B)) (take m ss)))"
      and c: "snd (headers_loop service ss (w @ ?B)) = None \<longrightarrow> m = length ss"
      by (elim exE conjE)
    have "fst (headers_loop service (s # ss) w) =
        w @ concat (map (\<lambda>(k, s). headers_block service k s)
                     (List.enumerate (ncalls w) (take (Suc m) (s # ss))))"
      unfolding step t n by simp
    moreover have "snd (headers_loop service (s # ss) w) = None \<longrightarrow>
        Suc m = length (s # ss)"
      unfolding step using c by simp
    moreover from m have "Suc m \<le> length (s # ss)" by simp
    ultimately show ?thesis by (intro exI [of _ "Suc m"] conjI)
  qed
qed

text \<open>
  Nothing leaves the two loops of \<^verbatim>\<open>check_sheet_structure.py\<close>: each pass ends in the
  handler at the latest, so the script always reaches its last line.
\<close>

lemma try_except_report: "snd (try_except r (report_error s)) = None"
  by (cases r) (simp add: try_except_def report_error_def split: option.splits)

lemma for_each_completes:
  "(\<And>x v. snd (body x v) = None) \<Longrightarrow> snd (for_each body xs w) = None"
proof (induction xs arbitrary: w)
  case Nil
  show ?case by simp
next
  case (Cons x xs)
  obtain v where "body x w = (v, None)"
    using Cons.prems [of x w] by (cases "body x w") auto
  with Cons show ?case by (simp add: seq_def)
qed

lemma sample_loop_completes: "snd (sample_loop repr_row service sheets w) = None"
  unfolding sample_loop_def
  by (rule for_each_completes) (simp add: sample_sheet_def try_except_report)

lemma check_sheet_structure_completes:
  "snd (check_sheet_structure repr_row service) = None"
proof -
  obtain v where a: "audit_loop service sheets_to_check (audit_banner []) = (v, None)"
    using audit_loop_completes [of service sheets_to_check "audit_banner []"]
    by (cases "audit_loop service sheets_to_check (audit_banner [])") auto
  obtain u where "sample_loop repr_row service sheets_to_check (sample_banner v) = (u, None)"
    using sample_loop_completes [of repr_row service sheets_to_check "sample_banner v"]
    by (cases "sample_loop repr_row service sheets_to_check (sample_banner v)") auto
  with a show ?thesis
    by (simp add: check_sheet_structure_def seq_def)
qed


lemma hd_of_take2: "take 2 xs = [a, b] \<Longrightarrow> hd xs = a"
  by (cases xs) auto

lemma audit_block_hd: "hd (audit_block service k s) = Request (audit_range s)"
  using audit_block_shape [of service k s]
  by (cases "service k (audit_range s)") (auto dest: hd_of_take2)

lemma headers_block_hd: "hd (headers_block service k s) = Request (headers_range s)"
  using headers_block_shape [of service k s]
  by (cases "service k (headers_range s)") (auto dest: hd_of_take2)

section \<open>Order of processing\<close>

text \<open>
  C7. Both scripts process the sheets one after the other in the order of the list. The
  trace of a loop is the trace before it followed by one block of events for each sheet,
  the blocks in list order; a block starts with the one request for its sheet and holds
  no other request, so the answer to a request is printed before the next request is
  sent. In \<^verbatim>\<open>check_sheet_structure.py\<close> there is a block for every sheet; in
  \<^verbatim>\<open>check_headers.py\<close> there are blocks for the first \<open>n\<close> sheets, all of them when the
  loop completes. What follows the request in a block names the sheet of the block: the
  title line of the sheet, or in \<^verbatim>\<open>check_sheet_structure.py\<close> the error line for it.
\<close>

theorem sheets_processed_in_list_order:
  "audit_loop service sheets w =
     (w @ concat (map (\<lambda>(k, s). audit_block service k s)
                    (List.enumerate (ncalls w) sheets)), None) \<and>
   (\<exists>n\<le>length sheets.
      fst (headers_loop service sheets w) =
        w @ concat (map (\<lambda>(k, s). headers_block service k s)
                      (List.enumerate (ncalls w) (take n sheets))) \<and>
      (snd (headers_loop service sheets w) = None \<longrightarrow> n = length sheets)) \<and>
   hd (audit_block service k s) = Request (audit_range s) \<and>
   filter is_Request (audit_block service k s) = [Request (audit_range s)] \<and>
   hd (headers_block service k s) = Request (headers_range s) \<and>
   filter is_Request (headers_block service k s) = [Request (headers_range s)] \<and>
   (case service k (audit_range s) of
      Inl e \<Rightarrow>
        audit_block service k s =
          [Request (audit_range s),
           Print ([10060] @ lit '' Error reading '' @ s @ lit '': '' @ exn_str e),
           Print []]
    | Inr result \<Rightarrow>
        take 2 (audit_block service k s) =
          [Request (audit_range s), Print ([128203] @ lit '' Sheet: '' @ s)]) \<and>
   (case service k (headers_range s) of
      Inl e \<Rightarrow> headers_block service k s = [Request (headers_range s)]
    | Inr result \<Rightarrow>
        take 2 (headers_block service k s) =
          [Request (headers_range s), Print (lit ''Sheet: '' @ s)])"
  using audit_loop_blocks [of service sheets w] headers_loop_blocks [of sheets service w]
    audit_block_hd [of service k s] audit_block_requests [of service k s]
    headers_block_hd [of service k s] headers_block_requests [of service k s]
    audit_block_shape [of service k s] headers_block_shape [of service k s]
  by (intro conjI)

theorem sheets_processed_in_list_order_witness:
  "snd (headers_loop (\<lambda>k r. Inr None) [lit ''Gemini'', lit ''ChatGPT''] []) = None \<and>
   fst (headers_loop (\<lambda>k r. Inr None) [lit ''Gemini'', lit ''ChatGPT''] []) =
     [Request (lit ''Gemini!A2:K2''), Print (lit ''Sheet: Gemini''),
      Print (concat (replicate 80 (lit ''-''))), Print [],
      Request (lit ''ChatGPT!A2:K2''), Print (lit ''Sheet: ChatGPT''),
      Print (concat (replicate 80 (lit ''-''))), Print []] \<and>
   headers_block (\<lambda>k r. Inr None) 0 (lit ''Gemini'') =
     [Request (lit ''Gemini!A2:K2''), Print (lit ''Sheet: Gemini''),
      Print (concat (replicate 80 (lit ''-''))), Print []] \<and>
   headers_block (\<lambda>k r. Inr None) 1 (lit ''ChatGPT'') =
     [Request (lit ''ChatGPT!A2:K2''), Print (lit ''Sheet: ChatGPT''),
      Print (concat (replicate 80 (lit ''-''))), Print []]"
  using sheets_processed_in_list_order
          [of "\<lambda>k r. Inr None" "[lit ''Gemini'', lit ''ChatGPT'']" "[]" 0 "lit ''Gemini''"]
  by (simp add: headers_loop_def headers_block_def headers_sheet_def headers_range_def
        first_row_def execute_def seq_def py_print_def shifted_def lit_def)

section \<open>A sheet that cannot be read\<close>

text \<open>
  C1 (the code at a failing input). In the spreadsheet without the sheet \<open>ChatGPT\<close>,
  \<^verbatim>\<open>check_headers.py\<close> sends the requests for \<open>Gemini\<close> and \<open>ChatGPT\<close> and ends with the
  exception of the second: the sheets \<open>YouTube\<close> and \<open>Perplexity\<close> that follow are never
  requested. The first loop of \<^verbatim>\<open>check_sheet_structure.py\<close> requests all four sheets in
  the same spreadsheet and completes.
\<close>

theorem check_headers_stops_at_unreadable_sheet:
  "filter is_Request (fst (check_headers without_ChatGPT)) =
     [Request (lit ''Gemini!A2:K2''), Request (lit ''ChatGPT!A2:K2'')] \<and>
   snd (check_headers without_ChatGPT) = Some (ServiceError (lit ''HttpError 400'')) \<and>
   filter is_Request (fst (audit_loop without_ChatGPT sheets_to_check (audit_banner []))) =
     map (\<lambda>s. Request (audit_range s)) sheets_to_check \<and>
   snd (audit_loop without_ChatGPT sheets_to_check (audit_banner [])) = None"
proof -
  have "check_headers without_ChatGPT =
     (headers_banner [] @
      [Request (lit ''Gemini!A2:K2''), Print (lit ''Sheet: Gemini''),
       Print (concat (replicate 80 (lit ''-''))),
       Print (lit ''  A = Email''), Print (lit ''  B = Status''), Print [],
       Request (lit ''ChatGPT!A2:K2'')],
      Some (ServiceError (lit ''HttpError 400'')))"
    by (simp add: check_headers_def headers_loop_def product_sheets_def headers_sheet_def
          headers_banner_def headers_range_def audit_range_def sample_range_def
          without_ChatGPT_def first_row_def execute_def ncalls_def seq_def py_print_def
          chr_def lit_def)
  then have "filter is_Request (fst (check_headers without_ChatGPT)) =
       [Request (lit ''Gemini!A2:K2''), Request (lit ''ChatGPT!A2:K2'')]"
    and "snd (check_headers without_ChatGPT) = Some (ServiceError (lit ''HttpError 400''))"
    by (simp_all add: headers_banner_def py_print_def)
  moreover have "filter is_Request
       (fst (audit_loop without_ChatGPT sheets_to_check (audit_banner []))) =
     map (\<lambda>s. Request (audit_range s)) sheets_to_check"
    by (simp add: audit_loop_requests audit_banner_def py_print_def)
  moreover have "snd (audit_loop without_ChatGPT sheets_to_check (audit_banner [])) = None"
    by (rule audit_loop_completes)
  ultimately show ?thesis by (intro conjI)
qed

text \<open>
  C2 (the code at a failing input). In the same spreadsheet the loop of
  \<^verbatim>\<open>check_headers.py\<close> is left by the exception of the request for \<open>ChatGPT\<close>: the last
  event is that request, no diagnostic is printed, and the exception is the result of the
  loop. The body of the first loop of \<^verbatim>\<open>check_sheet_structure.py\<close> catches the same
  exception and prints the line that names the sheet and the cause.
\<close>

theorem check_headers_loop_raises:
  "headers_loop without_ChatGPT product_sheets [] =
     ([Request (lit ''Gemini!A2:K2''), Print (lit ''Sheet: Gemini''),
       Print (concat (replicate 80 (lit ''-''))),
       Print (lit ''  A = Email''), Print (lit ''  B = Status''), Print [],
       Request (lit ''ChatGPT!A2:K2'')],
      Some (ServiceError (lit ''HttpError 400''))) \<and>
   audit_sheet without_ChatGPT (lit ''ChatGPT'') [] =
     ([Request (audit_range (lit ''ChatGPT'')),
       Print ([10060] @ lit '' Error reading ChatGPT: HttpError 400''),
       Print []], None)"
proof -
  have "headers_loop without_ChatGPT product_sheets [] =
     ([Request (lit ''Gemini!A2:K2''), Print (lit ''Sheet: Gemini''),
       Print (concat (replicate 80 (lit ''-''))),
       Print (lit ''  A = Email''), Print (lit ''  B = Status''), Print [],
       Request (lit ''ChatGPT!A2:K2'')],
      Some (ServiceError (lit ''HttpError 400'')))"
    by (simp add: headers_loop_def product_sheets_def headers_sheet_def
          headers_range_def audit_range_def sample_range_def
          without_ChatGPT_def first_row_def execute_def ncalls_def seq_def py_print_def
          chr_def lit_def)
  moreover have "audit_sheet without_ChatGPT (lit ''ChatGPT'') [] =
     ([Request (audit_range (lit ''ChatGPT'')),
       Print ([10060] @ lit '' Error reading ChatGPT: HttpError 400''),
       Print []], None)"
  proof -
    have "without_ChatGPT (ncalls []) (audit_range (lit ''ChatGPT'')) =
            Inl (ServiceError (lit ''HttpError 400''))"
      by (simp add: without_ChatGPT_def)
    with audit_sheet_reports_failure
           [of without_ChatGPT "[]" "lit ''ChatGPT''" "ServiceError (lit ''HttpError 400'')"]
    show ?thesis by (simp add: lit_def)
  qed
  ultimately show ?thesis by (intro conjI)
qed


end
